theory Spec2Isabelle
  imports Main "HOL-Library.Sublist"
begin

section \<open>The child bridge fork: data\<close>

text \<open>
  The script \<^verbatim>\<open>childBridgeFork.ts\<close> runs as a forked child process. It owns one
  \<^verbatim>\<open>ChildBridgeFork\<close> object, a message handler, a signal handler and a periodic
  check of the channel to the parent. Everything the script does to the outside (calls
  into the plugin manager, the bridge service, the logger, Node's \<^verbatim>\<open>process\<close>) is
  recorded as an event in a trace; what these collaborators answer is an oracle.
\<close>

text \<open>
  Modelled from the spec: the enumeration \<^verbatim>\<open>ChildProcessMessageEventType\<close> is declared in
  \<^verbatim>\<open>./childBridgeService\<close>, which is not among the sources; the spec lists the kinds
  READY, LOAD, LOADED and START.
\<close>

datatype ChildProcessMessageEventType = READY | LOAD | LOADED | START

text \<open>
  Modelled from the spec: \<^verbatim>\<open>PluginType\<close> is declared in \<^verbatim>\<open>./api\<close>; the spec names the two
  extension kinds PLATFORM and ACCESSORY.
\<close>

datatype PluginType = PLATFORM | ACCESSORY

text \<open>
  The bridge options the script reads. An optional flag is modelled by its truthiness;
  an absent \<^verbatim>\<open>customStoragePath\<close> is \<open>None\<close>.
\<close>

record BridgeOptions =
  noLogTimestamps :: bool
  debugModeEnabled :: bool
  forceColourLogging :: bool
  customStoragePath :: "string option"

text \<open>
  The plugin configuration: the keys the script looks at. \<open>has_bridge\<close> says whether
  the key \<^verbatim>\<open>_bridge\<close> is present.
\<close>

record PluginConfig =
  name :: "string option"
  uuid_base :: "string option"
  has_bridge :: bool

record ChildProcessLoadEventData =
  data_type :: PluginType
  data_identifier :: string
  data_pluginPath :: string
  data_pluginConfig :: PluginConfig
  data_bridgeConfig :: string
  data_bridgeOptions :: BridgeOptions
  data_homebridgeConfig :: string

text \<open>
  A JavaScript value as far as the message handler inspects one. \<open>JKind k\<close> is the value
  of the enumeration member \<open>k\<close>, taken to be truthy (a member with a falsy value could
  never pass the test of the handler); the other strings are \<open>JString\<close>.
\<close>

datatype js_value =
    JUndefined
  | JNull
  | JBoolean bool
  | JNumber int
  | JString string
  | JKind ChildProcessMessageEventType

fun truthy :: "js_value \<Rightarrow> bool" where
  "truthy JUndefined = False"
| "truthy JNull = False"
| "truthy (JBoolean b) = b"
| "truthy (JNumber n) = (n \<noteq> 0)"
| "truthy (JString s) = (s \<noteq> [])"
| "truthy (JKind k) = True"

definition truthy_string :: "string option \<Rightarrow> bool" where
  "truthy_string v = (case v of None \<Rightarrow> False | Some s \<Rightarrow> s \<noteq> [])"

text \<open>
  An inbound message is a primitive value or an object with the properties \<^verbatim>\<open>id\<close> and
  \<^verbatim>\<open>data\<close> (a missing property is \<open>JUndefined\<close>, respectively \<open>None\<close>).
\<close>

datatype message =
    Primitive js_value
  | Object js_value "ChildProcessLoadEventData option"

text \<open>\<^verbatim>\<open>typeof message === "object"\<close>: true of objects and of \<^verbatim>\<open>null\<close>.\<close>

fun typeof_object :: "message \<Rightarrow> bool" where
  "typeof_object (Primitive JNull) = True"
| "typeof_object (Primitive v) = False"
| "typeof_object (Object i d) = True"

datatype Envelope = Envelope ChildProcessMessageEventType "string option"

datatype Accessory = Accessory string

datatype event =
    Process_send Envelope
  | Process_exit int
  | Logger_setTimestampEnabled bool
  | Logger_setDebugEnabled bool
  | Logger_forceColor
  | User_setStoragePath string
  | HAPStorage_setCustomStoragePath "string option"
  | New_HomebridgeAPI
  | New_PluginManager
  | PluginManager_loadPlugin string
  | Plugin_load
  | PluginManager_initializePlugin string
  | Plugin_getPluginIdentifier
  | New_BridgeService
  | BridgeService_loadCachedPlatformAccessoriesFromDisk
  | PluginManager_getPluginForPlatform "string option"
  | Plugin_getPlatformConstructor "string option"
  | New_platform
  | Plugin_assignDynamicPlatform "string option"
  | BridgeService_loadPlatformAccessories "string option"
  | PluginManager_getPluginForAccessory "string option"
  | Plugin_getAccessoryConstructor "string option"
  | New_accessory
  | BridgeService_createHAPAccessory string "string option" "string option"
  | Bridge_addBridgedAccessory Accessory
  | BridgeService_restoreCachedPlatformAccessories
  | BridgeService_publishBridge
  | Api_signalFinished
  | BridgeService_teardown
  | Logger_withPrefix string
  | Logger_internal_warn "string option"
  | Logger_internal_info string
  | Logger_prefixed "string option"
  | Enter_shutdown

datatype error = TypeError string | Thrown event

text \<open>How a statement ends: normally, by \<^verbatim>\<open>return\<close>, by an exception, or by
  \<^verbatim>\<open>process.exit\<close>.\<close>

datatype completion = Normal | Return | Throw error | Exit int

datatype HomebridgeAPI = HomebridgeAPI
datatype PluginManager = PluginManager
datatype Plugin = Plugin string
datatype BridgeService = BridgeService

text \<open>The fields of the class; each is undefined (\<open>None\<close>) until assigned.\<close>

record ChildBridgeFork =
  bridgeService :: "BridgeService option"
  api :: "HomebridgeAPI option"
  pluginManager :: "PluginManager option"
  type :: "PluginType option"
  plugin :: "Plugin option"
  "identifier" :: "string option"
  pluginConfig :: "PluginConfig option"
  bridgeConfig :: "string option"
  bridgeOptions :: "BridgeOptions option"
  homebridgeConfig :: "string option"

text \<open>
  The state of the process: Node's \<^verbatim>\<open>process\<close> object (\<open>send\<close> says whether
  \<^verbatim>\<open>process.send\<close> is defined, \<open>connected\<close> is \<^verbatim>\<open>process.connected\<close>), the settings of the
  logger and of the storage path, the controller, the flag of the signal handler, the
  pending timeouts (delay in milliseconds and the exit code their callback passes to
  \<^verbatim>\<open>process.exit\<close>), the promises of \<^verbatim>\<open>startBridge\<close> that were rejected, and the trace.
  \<open>exited\<close> is the code \<^verbatim>\<open>process.exit\<close> was called with, \<open>uncaught\<close> the exception that left
  a handler uncaught.
\<close>

record proc =
  send :: bool
  connected :: bool
  title :: string
  exited :: "int option"
  uncaught :: "error option"
  rejected :: "error list"
  timestampEnabled :: bool
  debugEnabled :: bool
  colorForced :: bool
  storagePath :: "string option"
  childPluginFork :: ChildBridgeFork
  shuttingDown :: bool
  timers :: "(nat \<times> int) list"
  trace :: "event list"

text \<open>
  What the collaborators answer, as functions of the trace so far: whether a call throws,
  the identifier a plugin reports, the capabilities of the platform a constructor built,
  and the accessory \<^verbatim>\<open>createHAPAccessory\<close> returns (\<open>None\<close> for \<^verbatim>\<open>undefined\<close>).
\<close>

record env =
  throws :: "event list \<Rightarrow> event \<Rightarrow> bool"
  getPluginIdentifier :: "event list \<Rightarrow> string"
  isDynamicPlatformPlugin :: "event list \<Rightarrow> bool"
  isStaticPlatformPlugin :: "event list \<Rightarrow> bool"
  createHAPAccessory :: "event list \<Rightarrow> Accessory option"

section \<open>Statements\<close>

type_synonym stmt = "proc \<Rightarrow> completion \<times> proc"

text \<open>A sequence of statements stops at the first one that does not end normally.\<close>

fun steps :: "stmt list \<Rightarrow> stmt" where
  "steps [] s = (Normal, s)"
| "steps (f # fs) s = (case f s of (Normal, s') \<Rightarrow> steps fs s' | r \<Rightarrow> r)"

text \<open>A function body: \<^verbatim>\<open>return\<close> ends the function, not its caller.\<close>

definition function_body :: "stmt \<Rightarrow> stmt" where
  "function_body f s = (case f s of (Return, s') \<Rightarrow> (Normal, s') | r \<Rightarrow> r)"

text \<open>\<^verbatim>\<open>try { f } catch (e) { }\<close> with the empty handler.\<close>

definition try_catch :: "stmt \<Rightarrow> stmt" where
  "try_catch f s = (case f s of (Throw e, s') \<Rightarrow> (Normal, s') | r \<Rightarrow> r)"

text \<open>
  Calling an \<^verbatim>\<open>async\<close> function without awaiting it: an exception inside rejects the
  promise and does not reach the caller.
\<close>

definition async_call :: "stmt \<Rightarrow> stmt" where
  "async_call f s =
     (case f s of
        (Throw e, s') \<Rightarrow> (Normal, s'\<lparr>rejected := rejected s' @ [e]\<rparr>)
      | (Return, s') \<Rightarrow> (Normal, s')
      | r \<Rightarrow> r)"

definition emit :: "event \<Rightarrow> proc \<Rightarrow> proc" where
  "emit e s = s\<lparr>trace := trace s @ [e]\<rparr>"

text \<open>A call that cannot throw (logging, Node primitives).\<close>

definition prim :: "event \<Rightarrow> stmt" where
  "prim e s = (Normal, emit e s)"

text \<open>A call into a collaborator: it is made, and the oracle says whether it throws.\<close>

definition ext :: "env \<Rightarrow> event \<Rightarrow> stmt" where
  "ext E e s = (if throws E (trace s) e then Throw (Thrown e) else Normal, emit e s)"

definition assign :: "(proc \<Rightarrow> proc) \<Rightarrow> stmt" where
  "assign f s = (Normal, f s)"

definition this_update :: "(ChildBridgeFork \<Rightarrow> ChildBridgeFork) \<Rightarrow> proc \<Rightarrow> proc" where
  "this_update f s = s\<lparr>childPluginFork := f (childPluginFork s)\<rparr>"

text \<open>A method call on a field of \<^verbatim>\<open>this\<close>: a TypeError when the field is undefined.\<close>

definition bridgeService_call :: "env \<Rightarrow> event \<Rightarrow> stmt" where
  "bridgeService_call E e s =
     (case bridgeService (childPluginFork s) of
        None \<Rightarrow> (Throw (TypeError ''bridgeService''), s)
      | Some b \<Rightarrow> ext E e s)"

definition pluginManager_call :: "env \<Rightarrow> event \<Rightarrow> stmt" where
  "pluginManager_call E e s =
     (case pluginManager (childPluginFork s) of
        None \<Rightarrow> (Throw (TypeError ''pluginManager''), s)
      | Some m \<Rightarrow> ext E e s)"

definition api_call :: "env \<Rightarrow> event \<Rightarrow> stmt" where
  "api_call E e s =
     (case api (childPluginFork s) of
        None \<Rightarrow> (Throw (TypeError ''api''), s)
      | Some a \<Rightarrow> ext E e s)"

definition process_exit :: "int \<Rightarrow> stmt" where
  "process_exit code s = (Exit code, (emit (Process_exit code) s)\<lparr>exited := Some code\<rparr>)"

definition if_then :: "bool \<Rightarrow> stmt \<Rightarrow> stmt" where
  "if_then b f s = (if b then f s else (Normal, s))"

definition throw :: "error \<Rightarrow> stmt" where
  "throw e s = (Throw e, s)"

section \<open>The class \<^verbatim>\<open>ChildBridgeFork\<close>\<close>

text \<open>\<^verbatim>\<open>sendMessage\<close>: the envelope goes to \<^verbatim>\<open>process.send\<close> when that function exists.\<close>

definition sendMessage :: "ChildProcessMessageEventType \<Rightarrow> string option \<Rightarrow> stmt" where
  "sendMessage ty d s =
     (if send s then prim (Process_send (Envelope ty d)) s else (Normal, s))"

text \<open>The setters of \<^verbatim>\<open>Logger\<close> and \<^verbatim>\<open>User\<close> change process-wide settings.\<close>

definition setTimestampEnabled :: "bool \<Rightarrow> stmt" where
  "setTimestampEnabled b =
     steps [prim (Logger_setTimestampEnabled b), assign (\<lambda>s. s\<lparr>timestampEnabled := b\<rparr>)]"

definition setDebugEnabled :: "bool \<Rightarrow> stmt" where
  "setDebugEnabled b =
     steps [prim (Logger_setDebugEnabled b), assign (\<lambda>s. s\<lparr>debugEnabled := b\<rparr>)]"

definition forceColor :: stmt where
  "forceColor = steps [prim Logger_forceColor, assign (\<lambda>s. s\<lparr>colorForced := True\<rparr>)]"

definition setStoragePath :: "string \<Rightarrow> stmt" where
  "setStoragePath p =
     steps [prim (User_setStoragePath p), assign (\<lambda>s. s\<lparr>storagePath := Some p\<rparr>)]"

text \<open>The bridge settings inherited from the main bridge (lines 68 to 83).\<close>

definition setBridgeSettings :: "BridgeOptions \<Rightarrow> stmt" where
  "setBridgeSettings opts = steps [
     if_then (noLogTimestamps opts) (setTimestampEnabled False),
     if_then (debugModeEnabled opts) (setDebugEnabled True),
     if_then (forceColourLogging opts) forceColor,
     (case customStoragePath opts of
        None \<Rightarrow> assign (\<lambda>s. s)
      | Some p \<Rightarrow> if_then (p \<noteq> []) (setStoragePath p))]"

text \<open>The process title gets the identifier the plugin reports (line 98).\<close>

definition changeTitle :: "env \<Rightarrow> stmt" where
  "changeTitle E s =
     (case ext E Plugin_getPluginIdentifier s of
        (Normal, s') \<Rightarrow>
          (Normal, s'\<lparr>title := ''homebridge: '' @ getPluginIdentifier E (trace s)\<rparr>)
      | r \<Rightarrow> r)"

text \<open>
  \<^verbatim>\<open>loadPlugin\<close> (lines 56 to 101). \<^verbatim>\<open>User.persistPath()\<close> is computed by \<^verbatim>\<open>./user\<close> from the
  storage path in effect; the event of \<^verbatim>\<open>HAPStorage.setCustomStoragePath\<close> records that
  storage path. An undefined \<^verbatim>\<open>data\<close> fails at the first property read.
\<close>

definition loadPlugin :: "env \<Rightarrow> ChildProcessLoadEventData option \<Rightarrow> stmt" where
  "loadPlugin E data =
     (case data of
        None \<Rightarrow> throw (TypeError ''data'')
      | Some d \<Rightarrow> steps [
          assign (this_update (\<lambda>t. t\<lparr>
            type := Some (data_type d),
            identifier := Some (data_identifier d),
            pluginConfig := Some (data_pluginConfig d),
            bridgeConfig := Some (data_bridgeConfig d),
            bridgeOptions := Some (data_bridgeOptions d),
            homebridgeConfig := Some (data_homebridgeConfig d)\<rparr>)),
          (\<lambda>s. case pluginConfig (childPluginFork s) of
                 None \<Rightarrow> throw (TypeError ''pluginConfig'') s
               | Some c \<Rightarrow>
                   assign (this_update (\<lambda>t. t\<lparr>pluginConfig := Some (c\<lparr>has_bridge := False\<rparr>)\<rparr>)) s),
          (\<lambda>s. case bridgeOptions (childPluginFork s) of
                 None \<Rightarrow> throw (TypeError ''bridgeOptions'') s
               | Some opts \<Rightarrow> setBridgeSettings opts s),
          (\<lambda>s. ext E (HAPStorage_setCustomStoragePath (storagePath s)) s),
          ext E New_HomebridgeAPI,
          assign (this_update (\<lambda>t. t\<lparr>api := Some HomebridgeAPI\<rparr>)),
          ext E New_PluginManager,
          assign (this_update (\<lambda>t. t\<lparr>pluginManager := Some PluginManager\<rparr>)),
          pluginManager_call E (PluginManager_loadPlugin (data_pluginPath d)),
          assign (this_update (\<lambda>t. t\<lparr>plugin := Some (Plugin (data_pluginPath d))\<rparr>)),
          ext E Plugin_load,
          pluginManager_call E (PluginManager_initializePlugin (data_identifier d)),
          changeTitle E,
          sendMessage LOADED None])"

text \<open>
  \<^verbatim>\<open>startBridge\<close> (lines 103 to 159). The function is \<^verbatim>\<open>async\<close>; the model runs it in
  one piece, an awaited promise that rejects being a call that throws. What another
  handler does while \<^verbatim>\<open>startBridge\<close> waits is not part of the model.
\<close>

definition platformCapability :: "env \<Rightarrow> stmt" where
  "platformCapability E s =
     (if isDynamicPlatformPlugin E (trace s)
      then ext E (Plugin_assignDynamicPlatform (identifier (childPluginFork s))) s
      else if isStaticPlatformPlugin E (trace s)
      then bridgeService_call E
             (BridgeService_loadPlatformAccessories (identifier (childPluginFork s))) s
      else (Normal, s))"

definition platformBranch :: "env \<Rightarrow> stmt" where
  "platformBranch E = steps [
     (\<lambda>s. pluginManager_call E
             (PluginManager_getPluginForPlatform (identifier (childPluginFork s))) s),
     (\<lambda>s. case (case pluginConfig (childPluginFork s) of None \<Rightarrow> None | Some c \<Rightarrow> name c) of
            Some n \<Rightarrow>
              if n \<noteq> [] then prim (Logger_withPrefix n) s
              else steps [ext E Plugin_getPluginIdentifier,
                          prim (Logger_withPrefix (getPluginIdentifier E (trace s)))] s
          | None \<Rightarrow>
              steps [ext E Plugin_getPluginIdentifier,
                     prim (Logger_withPrefix (getPluginIdentifier E (trace s)))] s),
     (\<lambda>s. ext E (Plugin_getPlatformConstructor (identifier (childPluginFork s))) s),
     ext E New_platform,
     platformCapability E]"

definition missingName :: stmt where
  "missingName = steps [
     (\<lambda>s. prim (Logger_internal_warn (identifier (childPluginFork s))) s),
     (\<lambda>s. (Return, s))]"

definition namedAccessory :: "env \<Rightarrow> PluginConfig \<Rightarrow> string \<Rightarrow> stmt" where
  "namedAccessory E c displayName = steps [
     prim (Logger_withPrefix displayName),
     (\<lambda>s. ext E (Plugin_getAccessoryConstructor (identifier (childPluginFork s))) s),
     ext E New_accessory,
     (\<lambda>s. bridgeService_call E
             (BridgeService_createHAPAccessory displayName
                (identifier (childPluginFork s)) (uuid_base c)) s),
     (\<lambda>s. case createHAPAccessory E (trace s) of
            Some a \<Rightarrow> bridgeService_call E (Bridge_addBridgedAccessory a) s
          | None \<Rightarrow> prim (Logger_prefixed (identifier (childPluginFork s))) s)]"

definition accessoryBranch :: "env \<Rightarrow> stmt" where
  "accessoryBranch E = steps [
     (\<lambda>s. pluginManager_call E
             (PluginManager_getPluginForAccessory (identifier (childPluginFork s))) s),
     (\<lambda>s. case pluginConfig (childPluginFork s) of
            None \<Rightarrow> throw (TypeError ''pluginConfig'') s
          | Some c \<Rightarrow>
              (case name c of
                 None \<Rightarrow> missingName s
               | Some n \<Rightarrow> if n = [] then missingName s else namedAccessory E c n s))]"

definition startBridge :: "env \<Rightarrow> stmt" where
  "startBridge E = function_body (steps [
     ext E New_BridgeService,
     assign (this_update (\<lambda>t. t\<lparr>bridgeService := Some BridgeService\<rparr>)),
     bridgeService_call E BridgeService_loadCachedPlatformAccessoriesFromDisk,
     (\<lambda>s. if type (childPluginFork s) = Some PLATFORM then platformBranch E s
           else if type (childPluginFork s) = Some ACCESSORY then accessoryBranch E s
           else (Normal, s)),
     bridgeService_call E BridgeService_restoreCachedPlatformAccessories,
     bridgeService_call E BridgeService_publishBridge,
     api_call E Api_signalFinished])"

text \<open>\<^verbatim>\<open>shutdown\<close> (lines 161 to 163). \<open>Enter_shutdown\<close> marks the entry into the method.\<close>

definition shutdown :: "env \<Rightarrow> stmt" where
  "shutdown E = steps [prim Enter_shutdown, bridgeService_call E BridgeService_teardown]"

section \<open>The script around the class\<close>

text \<open>The constructor (line 44) sends READY.\<close>

definition constructor :: stmt where
  "constructor = sendMessage READY None"

text \<open>The message handler (lines 174 to 189).\<close>

definition on_message :: "env \<Rightarrow> message \<Rightarrow> stmt" where
  "on_message E m = function_body (\<lambda>s.
     if \<not> typeof_object m then (Return, s)
     else (case m of
        Primitive v \<Rightarrow> (Throw (TypeError ''message''), s)
      | Object i d \<Rightarrow>
          if \<not> truthy i then (Return, s)
          else if i = JKind LOAD then loadPlugin E d s
          else if i = JKind START then async_call (startBridge E) s
          else (Normal, s)))"

text \<open>The signal handler (lines 194 to 210) and its two bindings (lines 212, 213).\<close>

definition setTimeout_exit :: "int \<Rightarrow> nat \<Rightarrow> stmt" where
  "setTimeout_exit code ms s = (Normal, s\<lparr>timers := timers s @ [(ms, code)]\<rparr>)"

definition signalHandler :: "env \<Rightarrow> string \<Rightarrow> int \<Rightarrow> stmt" where
  "signalHandler E signal signalNum = function_body (steps [
     (\<lambda>s. if shuttingDown s then (Return, s) else (Normal, s)),
     assign (\<lambda>s. s\<lparr>shuttingDown := True\<rparr>),
     prim (Logger_internal_info signal),
     try_catch (shutdown E),
     setTimeout_exit (128 + signalNum) 5000])"

datatype signal = SIGINT | SIGTERM

fun signal_name :: "signal \<Rightarrow> string" where
  "signal_name SIGINT = ''SIGINT''"
| "signal_name SIGTERM = ''SIGTERM''"

fun signal_number :: "signal \<Rightarrow> int" where
  "signal_number SIGINT = 2"
| "signal_number SIGTERM = 15"

definition on_signal :: "env \<Rightarrow> signal \<Rightarrow> stmt" where
  "on_signal E g = signalHandler E (signal_name g) (signal_number g)"

text \<open>The periodic check (lines 218 to 223) and its period in milliseconds.\<close>

definition liveness_interval :: nat where
  "liveness_interval = 5000"

definition liveness_check :: stmt where
  "liveness_check s =
     (if \<not> connected s
      then steps [prim (Logger_internal_info ''Parent process not connected''),
                  process_exit 1] s
      else (Normal, s))"

text \<open>A pending timeout fires: its callback calls \<^verbatim>\<open>process.exit\<close> with its code.\<close>

definition timeout_fires :: stmt where
  "timeout_fires s =
     (case timers s of
        [] \<Rightarrow> (Normal, s)
      | (ms, code) # ts \<Rightarrow> process_exit code (s\<lparr>timers := ts\<rparr>))"

text \<open>
  The event loop: one input at a time. A process that has exited, or died of an uncaught
  exception, handles nothing more.
\<close>

datatype input = Message message | Signal signal | Interval_tick | Timeout_elapsed

fun handler :: "env \<Rightarrow> input \<Rightarrow> stmt" where
  "handler E (Message m) = on_message E m"
| "handler E (Signal g) = on_signal E g"
| "handler E Interval_tick = liveness_check"
| "handler E Timeout_elapsed = timeout_fires"

definition alive :: "proc \<Rightarrow> bool" where
  "alive s = (exited s = None \<and> uncaught s = None)"

definition deliver :: "env \<Rightarrow> input \<Rightarrow> proc \<Rightarrow> proc" where
  "deliver E i s =
     (if alive s
      then (case handler E i s of
              (Throw e, s') \<Rightarrow> s'\<lparr>uncaught := Some e\<rparr>
            | (c, s') \<Rightarrow> s')
      else s)"

fun run :: "env \<Rightarrow> input list \<Rightarrow> proc \<Rightarrow> proc" where
  "run E [] s = s"
| "run E (i # is) s = run E is (deliver E i s)"

text \<open>The process as the script finds it (line 4 sets the title), then line 169.\<close>

definition fresh :: "bool \<Rightarrow> bool \<Rightarrow> proc" where
  "fresh snd_defined conn = \<lparr>
     send = snd_defined, connected = conn, title = ''homebridge: child bridge'',
     exited = None, uncaught = None, rejected = [],
     timestampEnabled = True, debugEnabled = False, colorForced = False,
     storagePath = None,
     childPluginFork = \<lparr>
       bridgeService = None, api = None, pluginManager = None, type = None,
       plugin = None, identifier = None, pluginConfig = None, bridgeConfig = None,
       bridgeOptions = None, homebridgeConfig = None\<rparr>,
     shuttingDown = False, timers = [], trace = []\<rparr>"

definition start_self :: "bool \<Rightarrow> bool \<Rightarrow> proc" where
  "start_self snd_defined conn = snd (constructor (fresh snd_defined conn))"

text \<open>Collaborators that never throw; the platform has no capability, the accessory
  conversion yields an accessory.\<close>

definition quiet :: env where
  "quiet = \<lparr>
     throws = (\<lambda>tr e. False),
     getPluginIdentifier = (\<lambda>tr. ''homebridge-dummy''),
     isDynamicPlatformPlugin = (\<lambda>tr. False),
     isStaticPlatformPlugin = (\<lambda>tr. False),
     createHAPAccessory = (\<lambda>tr. Some (Accessory ''lamp''))\<rparr>"

section \<open>Reading the trace\<close>

text \<open>The events a run from \<open>s\<close> to \<open>s'\<close> has added.\<close>

definition new_events :: "proc \<Rightarrow> proc \<Rightarrow> event list" where
  "new_events s s' = drop (length (trace s)) (trace s')"

text \<open>The calls that apply a bridge option to the process-wide settings.\<close>

fun is_option_call :: "event \<Rightarrow> bool" where
  "is_option_call (Logger_setTimestampEnabled b) = True"
| "is_option_call (Logger_setDebugEnabled b) = True"
| "is_option_call Logger_forceColor = True"
| "is_option_call (User_setStoragePath p) = True"
| "is_option_call e = False"

text \<open>The calls that set the persist path of the storage and construct the API, the
  plugin manager and the bridge service.\<close>

fun is_construction :: "event \<Rightarrow> bool" where
  "is_construction (HAPStorage_setCustomStoragePath p) = True"
| "is_construction New_HomebridgeAPI = True"
| "is_construction New_PluginManager = True"
| "is_construction New_BridgeService = True"
| "is_construction e = False"

definition option_calls :: "BridgeOptions \<Rightarrow> event list" where
  "option_calls opts =
     (if noLogTimestamps opts then [Logger_setTimestampEnabled False] else [])
   @ (if debugModeEnabled opts then [Logger_setDebugEnabled True] else [])
   @ (if forceColourLogging opts then [Logger_forceColor] else [])
   @ (case customStoragePath opts of
        None \<Rightarrow> []
      | Some p \<Rightarrow> if p \<noteq> [] then [User_setStoragePath p] else [])"

text \<open>The storage path in effect once the options are applied.\<close>

definition storage_after :: "BridgeOptions \<Rightarrow> proc \<Rightarrow> string option" where
  "storage_after opts s =
     (case customStoragePath opts of
        None \<Rightarrow> storagePath s
      | Some p \<Rightarrow> if p \<noteq> [] then Some p else storagePath s)"

definition apply_options :: "BridgeOptions \<Rightarrow> proc \<Rightarrow> proc" where
  "apply_options opts s = s\<lparr>
     timestampEnabled := (if noLogTimestamps opts then False else timestampEnabled s),
     debugEnabled := (if debugModeEnabled opts then True else debugEnabled s),
     colorForced := (if forceColourLogging opts then True else colorForced s),
     storagePath := storage_after opts s,
     trace := trace s @ option_calls opts\<rparr>"

text \<open>The calls of \<^verbatim>\<open>loadPlugin\<close> after the options, when none of them throws.\<close>

definition load_calls :: "ChildProcessLoadEventData \<Rightarrow> proc \<Rightarrow> event list" where
  "load_calls d s =
     [HAPStorage_setCustomStoragePath (storage_after (data_bridgeOptions d) s),
      New_HomebridgeAPI, New_PluginManager,
      PluginManager_loadPlugin (data_pluginPath d), Plugin_load,
      PluginManager_initializePlugin (data_identifier d), Plugin_getPluginIdentifier]
     @ (if send s then [Process_send (Envelope LOADED None)] else [])"

text \<open>How often the teardown of the bridge service has been called; what the signal
  handler guards and schedules; and how many teardown calls a process can still add to
  those made.\<close>

definition teardowns :: "proc \<Rightarrow> nat" where
  "teardowns s = count_list (trace s) BridgeService_teardown"

definition guard_state :: "proc \<Rightarrow> bool \<times> nat \<times> (nat \<times> int) list" where
  "guard_state s = (shuttingDown s, teardowns s, timers s)"

definition budget :: "proc \<Rightarrow> nat" where
  "budget s = teardowns s + (if shuttingDown s then 0 else 1)"

text \<open>No timeout is pending unless a signal has set the flag.\<close>

definition quiescent :: "proc \<Rightarrow> bool" where
  "quiescent s = (shuttingDown s \<or> timers s = [])"

section \<open>Example inputs\<close>

text \<open>A bridge service whose teardown throws.\<close>

definition angry :: env where
  "angry = quiet\<lparr>throws := (\<lambda>tr e. e = BridgeService_teardown)\<rparr>"

definition example_options :: BridgeOptions where
  "example_options = \<lparr>noLogTimestamps = True, debugModeEnabled = False,
     forceColourLogging = True, customStoragePath = Some ''/var/lib/homebridge''\<rparr>"

definition example_load :: "PluginType \<Rightarrow> string option \<Rightarrow> ChildProcessLoadEventData" where
  "example_load t n = \<lparr>data_type = t, data_identifier = ''Dummy'',
     data_pluginPath = ''/plugins/dummy'',
     data_pluginConfig = \<lparr>name = n, uuid_base = None, has_bridge = True\<rparr>,
     data_bridgeConfig = ''bridge'', data_bridgeOptions = example_options,
     data_homebridgeConfig = ''config''\<rparr>"

text \<open>The process after LOAD and START of a platform.\<close>

definition running :: proc where
  "running = run quiet
     [Message (Object (JKind LOAD) (Some (example_load PLATFORM (Some ''Dummy platform'')))),
      Message (Object (JKind START) None)] (start_self True True)"

text \<open>The process after LOAD of a platform.\<close>

definition loaded :: proc where
  "loaded = run quiet
     [Message (Object (JKind LOAD) (Some (example_load PLATFORM (Some ''Dummy platform''))))]
     (start_self True True)"

text \<open>The process after LOAD of an accessory whose configuration has no name.\<close>

definition nameless :: proc where
  "nameless = run quiet
     [Message (Object (JKind LOAD) (Some (example_load ACCESSORY None)))]
     (start_self True True)"

section \<open>The signal handler\<close>

lemma shutdown_eq:
  "shutdown E s =
     (case bridgeService (childPluginFork s) of
        None \<Rightarrow> (Throw (TypeError ''bridgeService''), emit Enter_shutdown s)
      | Some b \<Rightarrow>
          (if throws E (trace s @ [Enter_shutdown]) BridgeService_teardown
           then Throw (Thrown BridgeService_teardown) else Normal,
           emit BridgeService_teardown (emit Enter_shutdown s)))"
  by (simp add: shutdown_def prim_def bridgeService_call_def ext_def emit_def
           split: option.split)

lemma try_shutdown_eq:
  "try_catch (shutdown E) s =
     (Normal, case bridgeService (childPluginFork s) of
        None \<Rightarrow> emit Enter_shutdown s
      | Some b \<Rightarrow> emit BridgeService_teardown (emit Enter_shutdown s))"
  by (simp add: try_catch_def shutdown_eq split: option.split)

lemma signalHandler_busy:
  "shuttingDown s \<Longrightarrow> signalHandler E g n s = (Normal, s)"
  by (simp add: signalHandler_def function_body_def)

lemma signalHandler_first:
  "\<not> shuttingDown s \<Longrightarrow>
   signalHandler E g n s =
     (Normal,
      (snd (try_catch (shutdown E) (emit (Logger_internal_info g) (s\<lparr>shuttingDown := True\<rparr>))))
        \<lparr>timers := timers s @ [(5000, 128 + n)]\<rparr>)"
  by (simp add: signalHandler_def function_body_def assign_def prim_def try_shutdown_eq
        setTimeout_exit_def emit_def split: option.split)

lemma signalHandler_first_facts:
  assumes "\<not> shuttingDown s"
  shows "shuttingDown (snd (signalHandler E g n s))"
    and "timers (snd (signalHandler E g n s)) = timers s @ [(5000, 128 + n)]"
    and "exited (snd (signalHandler E g n s)) = exited s"
    and "uncaught (snd (signalHandler E g n s)) = uncaught s"
    and "count_list (trace (snd (signalHandler E g n s))) Enter_shutdown
           = count_list (trace s) Enter_shutdown + 1"
  using assms
  by (simp_all add: signalHandler_first try_shutdown_eq emit_def split: option.split)

lemma deliver_signal_busy: "shuttingDown s \<Longrightarrow> deliver E (Signal g) s = s"
  by (simp add: deliver_def on_signal_def signalHandler_busy)

lemma run_signals_busy: "shuttingDown s \<Longrightarrow> run E (map Signal gs) s = s"
  by (induction gs) (simp_all add: deliver_signal_busy)

lemma deliver_signal_first:
  "\<not> shuttingDown s \<Longrightarrow> alive s \<Longrightarrow>
   deliver E (Signal g) s = snd (signalHandler E (signal_name g) (signal_number g) s)"
  by (simp add: deliver_def on_signal_def signalHandler_first)

lemma start_self_facts:
  "\<not> shuttingDown (start_self a b)" "alive (start_self a b)" "timers (start_self a b) = []"
  "exited (start_self a b) = None" "connected (start_self a b) = b" "send (start_self a b) = a"
  "count_list (trace (start_self a b)) Enter_shutdown = 0"
  "count_list (trace (start_self a b)) BridgeService_teardown = 0"
  by (simp_all add: start_self_def constructor_def sendMessage_def prim_def emit_def
        fresh_def alive_def)

lemma timeout_fires_single:
  "timers s = [(ms, code)] \<Longrightarrow>
   timeout_fires s =
     (Exit code, (emit (Process_exit code) (s\<lparr>timers := []\<rparr>))\<lparr>exited := Some code\<rparr>)"
  by (simp add: timeout_fires_def process_exit_def)

lemma deliver_timeout_single:
  "alive s \<Longrightarrow> timers s = [(ms, code)] \<Longrightarrow>
   exited (deliver E Timeout_elapsed s) = Some code"
  by (simp add: deliver_def timeout_fires_single)

text \<open>
  Claim C5. Of any sequence of termination signals delivered to a live process whose
  flag is not yet set, the first one calls \<^verbatim>\<open>shutdown\<close>, exactly once, and sets the flag;
  every later signal leaves the process as it is.
\<close>

theorem first_signal_only_calls_shutdown:
  assumes "\<not> shuttingDown s" and "alive s"
  shows "count_list (trace (run E (map Signal (g # gs)) s)) Enter_shutdown
           = count_list (trace s) Enter_shutdown + 1
       \<and> run E (map Signal (g # gs)) s = deliver E (Signal g) s
       \<and> shuttingDown (deliver E (Signal g) s)"
proof -
  let ?s1 = "deliver E (Signal g) s"
  have first: "?s1 = snd (signalHandler E (signal_name g) (signal_number g) s)"
    using assms by (rule deliver_signal_first)
  have flag: "shuttingDown ?s1"
    using assms(1) by (simp add: first signalHandler_first_facts)
  have rest: "run E (map Signal (g # gs)) s = ?s1"
    using flag by (simp add: run_signals_busy)
  have once: "count_list (trace ?s1) Enter_shutdown = count_list (trace s) Enter_shutdown + 1"
    using assms(1) by (simp add: first signalHandler_first_facts)
  show ?thesis using flag rest once by simp
qed

theorem first_signal_only_calls_shutdown_witness:
  "count_list (trace (run quiet (map Signal [SIGTERM, SIGINT, SIGTERM]) (start_self True True)))
     Enter_shutdown = 1
   \<and> run quiet (map Signal [SIGTERM, SIGINT, SIGTERM]) (start_self True True)
       = deliver quiet (Signal SIGTERM) (start_self True True)"
proof -
  note t = first_signal_only_calls_shutdown
    [where s = "start_self True True" and E = quiet and g = SIGTERM and gs = "[SIGINT, SIGTERM]",
     OF start_self_facts(1) start_self_facts(2)]
  from t [THEN conjunct1]
  have 1: "count_list (trace (run quiet (map Signal [SIGTERM, SIGINT, SIGTERM])
             (start_self True True))) Enter_shutdown = 1"
    unfolding start_self_facts(7) by (simp del: run.simps list.map)
  from t have 2: "run quiet (map Signal [SIGTERM, SIGINT, SIGTERM]) (start_self True True)
                    = deliver quiet (Signal SIGTERM) (start_self True True)"
    by (rule conjunct1 [OF conjunct2])
  show ?thesis using 1 2 by (rule conjI)
qed

text \<open>
  Claim C6. A signal with number \<open>n\<close> that arrives while no shutdown is in progress (flag
  not set, no timeout pending) makes the handler schedule one timeout of 5000
  milliseconds, whatever \<^verbatim>\<open>shutdown\<close> does; when it fires, the process exits with code
  \<open>128 + n\<close>. For SIGTERM, bound to the number 15, the exit code is 143. The grace period
  is the delay given to \<^verbatim>\<open>setTimeout\<close>.
\<close>

theorem signal_forces_exit_after_grace:
  assumes "\<not> shuttingDown s" and "timers s = []"
  shows "fst (signalHandler E g n s) = Normal
       \<and> timers (snd (signalHandler E g n s)) = [(5000, 128 + n)]
       \<and> exited (snd (signalHandler E g n s)) = exited s
       \<and> fst (timeout_fires (snd (signalHandler E g n s))) = Exit (128 + n)
       \<and> exited (snd (timeout_fires (snd (signalHandler E g n s)))) = Some (128 + n)
       \<and> (alive s \<longrightarrow> exited (run E [Signal SIGTERM, Timeout_elapsed] s) = Some 143)"
proof -
  let ?s1 = "snd (signalHandler E g n s)"
  have t: "timers ?s1 = [(5000, 128 + n)]"
    using assms by (simp add: signalHandler_first_facts)
  have e: "exited ?s1 = exited s"
    using assms(1) by (simp add: signalHandler_first_facts)
  have n: "fst (signalHandler E g n s) = Normal"
    using assms(1) by (simp add: signalHandler_first)
  have f: "fst (timeout_fires ?s1) = Exit (128 + n)"
       "exited (snd (timeout_fires ?s1)) = Some (128 + n)"
    by (simp_all add: timeout_fires_single [OF t])
  have sigterm: "exited (run E [Signal SIGTERM, Timeout_elapsed] s) = Some 143" if "alive s"
  proof -
    let ?s2 = "snd (signalHandler E ''SIGTERM'' 15 s)"
    have d: "deliver E (Signal SIGTERM) s = ?s2"
      using assms(1) that by (simp add: deliver_signal_first)
    have t2: "timers ?s2 = [(5000, 143)]"
      using assms by (simp add: signalHandler_first_facts)
    have a2: "alive ?s2"
      using assms(1) that by (simp add: alive_def signalHandler_first_facts)
    have "run E [Signal SIGTERM, Timeout_elapsed] s = deliver E Timeout_elapsed ?s2"
      by (simp add: d)
    then show ?thesis
      by (simp only: deliver_timeout_single [OF a2 t2])
  qed
  show ?thesis using t e n f sigterm by simp
qed

theorem signal_forces_exit_after_grace_witness:
  "exited (run quiet [Signal SIGTERM, Timeout_elapsed] (start_self True True)) = Some 143
   \<and> timers (snd (signalHandler quiet ''SIGTERM'' 15 (start_self True True))) = [(5000, 143)]"
  using signal_forces_exit_after_grace
    [where s = "start_self True True" and E = quiet and g = "''SIGTERM''" and n = 15,
     OF start_self_facts(1) start_self_facts(3)]
    start_self_facts(2) [of True True]
  by (simp del: run.simps)

text \<open>
  Claim C10. When two signals arrive in sequence, the one timeout that is scheduled
  carries the exit code of the first signal: the second signal returns at the flag and
  schedules nothing. SIGINT followed by SIGTERM exits with 130, not 143.
\<close>

theorem exit_code_from_first_signal:
  assumes "\<not> shuttingDown s" and "alive s" and "timers s = []"
  shows "timers (run E [Signal a, Signal b] s) = [(5000, 128 + signal_number a)]
       \<and> exited (run E [Signal a, Signal b, Timeout_elapsed] s) = Some (128 + signal_number a)
       \<and> run E [Signal a, Signal b, Timeout_elapsed, Timeout_elapsed] s
           = run E [Signal a, Signal b, Timeout_elapsed] s"
proof -
  let ?s1 = "snd (signalHandler E (signal_name a) (signal_number a) s)"
  have d: "deliver E (Signal a) s = ?s1"
    using assms(1,2) by (rule deliver_signal_first)
  have flag: "shuttingDown ?s1"
    using assms(1) by (simp add: signalHandler_first_facts)
  have t: "timers ?s1 = [(5000, 128 + signal_number a)]"
    using assms(1,3) by (simp add: signalHandler_first_facts)
  have al: "alive ?s1"
    using assms(1,2) by (simp add: alive_def signalHandler_first_facts)
  have two: "run E [Signal a, Signal b] s = ?s1"
    using flag by (simp add: d deliver_signal_busy)
  have three: "run E [Signal a, Signal b, Timeout_elapsed] s = deliver E Timeout_elapsed ?s1"
    using flag by (simp add: d deliver_signal_busy)
  have ex: "exited (deliver E Timeout_elapsed ?s1) = Some (128 + signal_number a)"
    using al t by (rule deliver_timeout_single)
  have dead: "\<not> alive (deliver E Timeout_elapsed ?s1)"
    using ex by (simp add: alive_def)
  have four: "run E [Signal a, Signal b, Timeout_elapsed, Timeout_elapsed] s
                = deliver E Timeout_elapsed (deliver E Timeout_elapsed ?s1)"
    using flag by (simp add: d deliver_signal_busy)
  have still: "deliver E Timeout_elapsed (deliver E Timeout_elapsed ?s1)
                 = deliver E Timeout_elapsed ?s1"
    using dead by (simp add: deliver_def [of E Timeout_elapsed "deliver E Timeout_elapsed ?s1"])
  show ?thesis
    by (simp only: two three four still t ex)
qed

theorem exit_code_from_first_signal_witness:
  "timers (run quiet [Signal SIGINT, Signal SIGTERM] (start_self True True)) = [(5000, 130)]
   \<and> exited (run quiet [Signal SIGINT, Signal SIGTERM, Timeout_elapsed] (start_self True True))
       = Some 130"
  using exit_code_from_first_signal
    [where s = "start_self True True" and E = quiet and a = SIGINT and b = SIGTERM,
     OF start_self_facts(1) start_self_facts(2) start_self_facts(3)]
  by (simp del: run.simps)

section \<open>Evaluating the examples\<close>

lemmas model_defs = start_self_def constructor_def fresh_def deliver_def alive_def
  on_message_def function_body_def loadPlugin_def startBridge_def async_call_def
  sendMessage_def prim_def ext_def emit_def assign_def this_update_def
  bridgeService_call_def pluginManager_call_def api_call_def if_then_def
  setBridgeSettings_def changeTitle_def setTimestampEnabled_def setDebugEnabled_def forceColor_def setStoragePath_def
  platformBranch_def platformCapability_def accessoryBranch_def missingName_def
  namedAccessory_def throw_def quiet_def example_load_def example_options_def

lemma running_facts:
  "bridgeService (childPluginFork running) = Some BridgeService"
  "alive running" "\<not> shuttingDown running" "timers running = []"
  "count_list (trace running) BridgeService_teardown = 0"
  by (simp_all add: running_def model_defs)

section \<open>The periodic check of the channel\<close>

text \<open>
  Claim C7. At a tick of the periodic check (period 5000 milliseconds) that finds
  \<^verbatim>\<open>process.connected\<close> false, the process logs and exits at once with code 1, which is
  neither 0 nor one of the codes \<open>128 + n\<close> of the signal path. Nothing else happens:
  \<^verbatim>\<open>shutdown\<close> is not entered, teardown is not called, the flag of the signal handler and
  the pending timeouts stay as they were.
\<close>

theorem disconnected_tick_exits_at_once:
  assumes "\<not> connected s"
  shows "liveness_check s =
           (Exit 1, s\<lparr>trace := trace s @ [Logger_internal_info ''Parent process not connected'',
                                            Process_exit 1],
                       exited := Some 1\<rparr>)
       \<and> (alive s \<longrightarrow>
            exited (deliver E Interval_tick s) = Some 1
          \<and> shuttingDown (deliver E Interval_tick s) = shuttingDown s
          \<and> timers (deliver E Interval_tick s) = timers s
          \<and> count_list (trace (deliver E Interval_tick s)) Enter_shutdown
              = count_list (trace s) Enter_shutdown
          \<and> count_list (trace (deliver E Interval_tick s)) BridgeService_teardown
              = count_list (trace s) BridgeService_teardown)
       \<and> (1::int) \<noteq> 0 \<and> (1::int) \<noteq> 128 + signal_number g
       \<and> liveness_interval = 5000"
proof -
  have lc: "liveness_check s =
           (Exit 1, s\<lparr>trace := trace s @ [Logger_internal_info ''Parent process not connected'',
                                            Process_exit 1],
                       exited := Some 1\<rparr>)"
    using assms by (simp add: liveness_check_def prim_def process_exit_def emit_def)
  have d: "deliver E Interval_tick s = snd (liveness_check s)" if "alive s"
    using that by (simp add: deliver_def lc)
  have g: "(1::int) \<noteq> 128 + signal_number g"
    by (cases g) simp_all
  show ?thesis
    using g by (simp add: d lc liveness_interval_def)
qed

theorem disconnected_tick_exits_at_once_witness:
  "exited (deliver quiet Interval_tick (start_self True False)) = Some 1
   \<and> count_list (trace (deliver quiet Interval_tick (start_self True False))) Enter_shutdown = 0
   \<and> timers (deliver quiet Interval_tick (start_self True False)) = []"
  using disconnected_tick_exits_at_once
      [where s = "start_self True False" and E = quiet and g = SIGTERM]
    start_self_facts [of True False]
  by simp

section \<open>Sending to the parent\<close>

text \<open>
  Claim C9, as stated, fails: \<^verbatim>\<open>sendMessage\<close> tests whether \<^verbatim>\<open>process.send\<close> exists, not
  whether the channel is connected. In a process forked with a channel that has since
  been disconnected, the envelope is still handed to \<^verbatim>\<open>process.send\<close>.
\<close>

theorem send_while_disconnected_not_dropped:
  "\<not> connected (fresh True False)
   \<and> sendMessage READY None (fresh True False) \<noteq> (Normal, fresh True False)
   \<and> trace (snd (sendMessage READY None (fresh True False)))
       = [Process_send (Envelope READY None)]"
  by (simp add: sendMessage_def prim_def emit_def fresh_def)

text \<open>
  Claim C9, amended. \<^verbatim>\<open>sendMessage\<close> never throws. When \<^verbatim>\<open>process.send\<close> is undefined (the
  process has no channel to a parent) it does nothing; when \<^verbatim>\<open>process.send\<close> is defined
  it calls it once with the envelope of the given kind and data, whether or not the
  channel is still connected.
\<close>

theorem sendMessage_guarded_by_process_send:
  "fst (sendMessage k d s) = Normal
   \<and> (\<not> send s \<longrightarrow> snd (sendMessage k d s) = s)
   \<and> (send s \<longrightarrow>
        snd (sendMessage k d s) = s\<lparr>trace := trace s @ [Process_send (Envelope k d)]\<rparr>)"
  by (simp add: sendMessage_def prim_def emit_def)

theorem sendMessage_guarded_by_process_send_witness:
  "snd (sendMessage LOADED None (fresh False False)) = fresh False False
   \<and> trace (snd (sendMessage LOADED (Some ''x'') (fresh True True)))
       = [Process_send (Envelope LOADED (Some ''x''))]
   \<and> trace (snd (sendMessage LOADED (Some ''x'') (fresh True False)))
       = [Process_send (Envelope LOADED (Some ''x''))]"
  using sendMessage_guarded_by_process_send [of LOADED None "fresh False False"]
    sendMessage_guarded_by_process_send [of LOADED "Some ''x''" "fresh True True"]
    sendMessage_guarded_by_process_send [of LOADED "Some ''x''" "fresh True False"]
  by (simp add: fresh_def)

section \<open>Exceptions during shutdown\<close>

text \<open>
  Claim C4, as stated, fails: \<^verbatim>\<open>shutdown\<close> has no handler of its own. When the teardown of
  the bridge service throws, the invocation of \<^verbatim>\<open>shutdown\<close> ends with that exception.
\<close>

theorem shutdown_passes_teardown_exception_on:
  "fst (shutdown angry running) = Throw (Thrown BridgeService_teardown)"
  by (simp add: shutdown_eq running_facts angry_def)

text \<open>
  Claim C4, amended. The signal handler, the only caller of \<^verbatim>\<open>shutdown\<close>, catches and
  discards whatever \<^verbatim>\<open>shutdown\<close> throws (an exception of the teardown, or the TypeError of
  a bridge service that does not exist yet): the handler always ends normally, the
  process stays alive without an uncaught exception, and on the first signal the flag is
  set, \<^verbatim>\<open>shutdown\<close> has been entered once and the forced exit is scheduled.
\<close>

theorem signalHandler_discards_shutdown_exception:
  "fst (signalHandler E g n s) = Normal
   \<and> uncaught (snd (signalHandler E g n s)) = uncaught s
   \<and> exited (snd (signalHandler E g n s)) = exited s
   \<and> (alive s \<longrightarrow> alive (deliver E (Signal sg) s))
   \<and> (\<not> shuttingDown s \<longrightarrow>
        shuttingDown (snd (signalHandler E g n s))
      \<and> timers (snd (signalHandler E g n s)) = timers s @ [(5000, 128 + n)]
      \<and> count_list (trace (snd (signalHandler E g n s))) Enter_shutdown
           = count_list (trace s) Enter_shutdown + 1)"
proof (cases "shuttingDown s")
  case True
  then show ?thesis
    by (simp add: signalHandler_busy deliver_signal_busy)
next
  case False
  have "alive (deliver E (Signal sg) s)" if "alive s"
    using that False by (simp add: deliver_signal_first alive_def signalHandler_first_facts)
  then show ?thesis
    using False by (simp add: signalHandler_first_facts) (simp add: signalHandler_first)
qed

theorem signalHandler_discards_shutdown_exception_witness:
  "fst (shutdown angry (emit (Logger_internal_info ''SIGTERM'') (running\<lparr>shuttingDown := True\<rparr>)))
     = Throw (Thrown BridgeService_teardown)
   \<and> fst (signalHandler angry ''SIGTERM'' 15 running) = Normal
   \<and> alive (deliver angry (Signal SIGTERM) running)
   \<and> timers (snd (signalHandler angry ''SIGTERM'' 15 running)) = [(5000, 143)]"
proof -
  have 1: "fst (shutdown angry
                 (emit (Logger_internal_info ''SIGTERM'') (running\<lparr>shuttingDown := True\<rparr>)))
             = Throw (Thrown BridgeService_teardown)"
    by (simp add: shutdown_eq running_facts angry_def emit_def)
  show ?thesis
    using signalHandler_discards_shutdown_exception
        [where s = running and E = angry and g = "''SIGTERM''" and n = 15 and sg = SIGTERM]
      running_facts 1
    by simp
qed

section \<open>The message handler\<close>

text \<open>
  Claim C3, as stated, fails for envelopes that arrive out of state: the handler checks
  no state. A second LOAD is carried out like the first and sends LOADED again; a START
  before any LOAD builds a bridge service, publishes its bridge and then fails on the
  undefined \<^verbatim>\<open>api\<close>, which rejects the promise of \<^verbatim>\<open>startBridge\<close>.
\<close>

theorem out_of_state_envelopes_are_executed:
  "deliver quiet
     (Message (Object (JKind LOAD) (Some (example_load PLATFORM (Some ''Dummy platform'')))))
     loaded \<noteq> loaded
   \<and> deliver quiet (Message (Object (JKind START) None)) (start_self True True)
       \<noteq> start_self True True
   \<and> count_list (trace loaded) (Process_send (Envelope LOADED None)) = 1
   \<and> count_list (trace (run quiet
         [Message (Object (JKind LOAD) (Some (example_load PLATFORM (Some ''Dummy platform''))))]
         loaded)) (Process_send (Envelope LOADED None)) = 2
   \<and> trace (run quiet [Message (Object (JKind START) None)] (start_self True True))
       = [Process_send (Envelope READY None), New_BridgeService,
          BridgeService_loadCachedPlatformAccessoriesFromDisk,
          BridgeService_restoreCachedPlatformAccessories, BridgeService_publishBridge]
   \<and> rejected (run quiet [Message (Object (JKind START) None)] (start_self True True))
       = [TypeError ''api'']"
  by code_simp

text \<open>
  Claim C3, amended. A message whose \<^verbatim>\<open>typeof\<close> is not \<^verbatim>\<open>"object"\<close>, or an object whose
  \<^verbatim>\<open>id\<close> is missing or falsy, is ignored: the handler returns normally and the process is
  exactly as before.
\<close>

theorem malformed_envelope_ignored:
  assumes "\<not> typeof_object m \<or> (\<exists>i d. m = Object i d \<and> \<not> truthy i)"
  shows "on_message E m s = (Normal, s) \<and> (alive s \<longrightarrow> deliver E (Message m) s = s)"
proof -
  have "on_message E m s = (Normal, s)"
    using assms by (auto simp add: on_message_def function_body_def)
  then show ?thesis by (simp add: deliver_def)
qed

theorem malformed_envelope_ignored_witness:
  "on_message quiet (Primitive (JString ''hello'')) running = (Normal, running)
   \<and> on_message quiet (Object JUndefined None) running = (Normal, running)
   \<and> on_message quiet (Object (JString []) (Some (example_load PLATFORM None))) running
       = (Normal, running)"
  using malformed_envelope_ignored [of "Primitive (JString ''hello'')" quiet running]
    malformed_envelope_ignored [of "Object JUndefined None" quiet running]
    malformed_envelope_ignored
      [of "Object (JString []) (Some (example_load PLATFORM None))" quiet running]
  by simp

text \<open>An object with an \<^verbatim>\<open>id\<close> the \<^verbatim>\<open>switch\<close> does not list falls through it.\<close>

lemma on_message_unknown_id:
  "truthy i \<Longrightarrow> i \<noteq> JKind LOAD \<Longrightarrow> i \<noteq> JKind START \<Longrightarrow>
   on_message E (Object i d) s = (Normal, s)"
  by (simp add: on_message_def function_body_def)

text \<open>\<^verbatim>\<open>typeof null\<close> is \<^verbatim>\<open>"object"\<close>, so \<^verbatim>\<open>null\<close> passes the first test and the read of its
  \<^verbatim>\<open>id\<close> throws.\<close>

lemma on_message_null:
  "on_message E (Primitive JNull) s = (Throw (TypeError ''message''), s)"
  by (simp add: on_message_def function_body_def)

section \<open>Loading the plugin\<close>

lemma setBridgeSettings_eq:
  "setBridgeSettings opts s = (Normal, apply_options opts s)"
  by (simp add: setBridgeSettings_def if_then_def setTimestampEnabled_def setDebugEnabled_def
        forceColor_def setStoragePath_def prim_def assign_def emit_def apply_options_def
        option_calls_def storage_after_def split: option.split)

lemma apply_options_sel [simp]:
  "trace (apply_options opts s) = trace s @ option_calls opts"
  "storagePath (apply_options opts s) = storage_after opts s"
  "send (apply_options opts s) = send s"
  "childPluginFork (apply_options opts s) = childPluginFork s"
  by (simp_all add: apply_options_def)

text \<open>Whatever throws, the trace of \<^verbatim>\<open>loadPlugin\<close> is the option calls, then the call that
  sets the persist path, then some initial part of the remaining calls.\<close>

lemma loadPlugin_trace:
  "prefix (trace s @ option_calls (data_bridgeOptions d)
             @ [HAPStorage_setCustomStoragePath (storage_after (data_bridgeOptions d) s)])
          (trace (snd (loadPlugin E (Some d) s)))
   \<and> prefix (trace (snd (loadPlugin E (Some d) s)))
         (trace s @ option_calls (data_bridgeOptions d) @ load_calls d s)"
  by (simp add: loadPlugin_def setBridgeSettings_eq assign_def this_update_def ext_def emit_def
       pluginManager_call_def sendMessage_def prim_def load_calls_def storage_after_def
       changeTitle_def split: option.split)

lemma loadPlugin_settings:
  "timestampEnabled (snd (loadPlugin E (Some d) s))
     = (if noLogTimestamps (data_bridgeOptions d) then False else timestampEnabled s)"
  "debugEnabled (snd (loadPlugin E (Some d) s))
     = (if debugModeEnabled (data_bridgeOptions d) then True else debugEnabled s)"
  "colorForced (snd (loadPlugin E (Some d) s))
     = (if forceColourLogging (data_bridgeOptions d) then True else colorForced s)"
  "storagePath (snd (loadPlugin E (Some d) s)) = storage_after (data_bridgeOptions d) s"
  by (simp_all add: loadPlugin_def setBridgeSettings_eq assign_def this_update_def ext_def
       emit_def pluginManager_call_def sendMessage_def prim_def apply_options_def
       storage_after_def changeTitle_def split: option.split)

lemma option_calls_only:
  "e \<in> set (option_calls opts) \<Longrightarrow> is_option_call e \<and> \<not> is_construction e"
  by (auto simp add: option_calls_def split: if_splits option.splits)

lemma load_calls_none: "e \<in> set (load_calls d s) \<Longrightarrow> \<not> is_option_call e"
  by (auto simp add: load_calls_def split: if_splits)

lemma ordered_append:
  assumes "\<forall>x \<in> set xs. \<not> Q x" and "\<forall>y \<in> set ys. \<not> P y"
    and "i < length (xs @ ys)" and "j < length (xs @ ys)"
    and "P ((xs @ ys) ! i)" and "Q ((xs @ ys) ! j)"
  shows "i < j"
proof -
  have i: "i < length xs"
  proof (rule ccontr)
    assume "\<not> i < length xs"
    then have "(xs @ ys) ! i \<in> set ys"
      using assms(3) by (simp add: nth_append)
    then show False using assms(2,5) by blast
  qed
  have j: "length xs \<le> j"
  proof (rule ccontr)
    assume "\<not> length xs \<le> j"
    then have "(xs @ ys) ! j \<in> set xs"
      by (simp add: nth_append)
    then show False using assms(1,6) by blast
  qed
  from i j show ?thesis by simp
qed

text \<open>
  Claim C8. In every run of \<^verbatim>\<open>loadPlugin\<close> on a load descriptor, whatever throws: each call
  that applies a bridge option (timestamps, debug mode, forced colour, storage path)
  comes strictly before each call that sets the persist path of the storage or constructs
  the API or the plugin manager; the option calls are the first calls made; the persist
  path is set, and from the storage path the options leave in effect; and the
  process-wide settings at the end are those the options ask for.
\<close>

theorem options_applied_before_construction:
  "(\<forall>i j. i < length (new_events s (snd (loadPlugin E (Some d) s)))
        \<and> j < length (new_events s (snd (loadPlugin E (Some d) s)))
        \<and> is_option_call (new_events s (snd (loadPlugin E (Some d) s)) ! i)
        \<and> is_construction (new_events s (snd (loadPlugin E (Some d) s)) ! j)
        \<longrightarrow> i < j)
   \<and> take (length (option_calls (data_bridgeOptions d)))
        (new_events s (snd (loadPlugin E (Some d) s))) = option_calls (data_bridgeOptions d)
   \<and> HAPStorage_setCustomStoragePath (storage_after (data_bridgeOptions d) s)
        \<in> set (new_events s (snd (loadPlugin E (Some d) s)))
   \<and> (\<forall>p. HAPStorage_setCustomStoragePath p \<in> set (new_events s (snd (loadPlugin E (Some d) s)))
         \<longrightarrow> p = storage_after (data_bridgeOptions d) s)
   \<and> timestampEnabled (snd (loadPlugin E (Some d) s))
        = (if noLogTimestamps (data_bridgeOptions d) then False else timestampEnabled s)
   \<and> debugEnabled (snd (loadPlugin E (Some d) s))
        = (if debugModeEnabled (data_bridgeOptions d) then True else debugEnabled s)
   \<and> colorForced (snd (loadPlugin E (Some d) s))
        = (if forceColourLogging (data_bridgeOptions d) then True else colorForced s)
   \<and> storagePath (snd (loadPlugin E (Some d) s)) = storage_after (data_bridgeOptions d) s"
proof -
  let ?s' = "snd (loadPlugin E (Some d) s)"
  let ?opts = "data_bridgeOptions d"
  let ?hap = "HAPStorage_setCustomStoragePath (storage_after ?opts s)"
  from loadPlugin_trace [of s d E]
  have lo: "prefix (trace s @ option_calls ?opts @ [?hap]) (trace ?s')"
    and hi: "prefix (trace ?s') (trace s @ option_calls ?opts @ load_calls d s)"
    by blast+
  from lo obtain zs where zs: "trace ?s' = trace s @ option_calls ?opts @ ?hap # zs"
    by (auto simp add: prefix_def)
  let ?rest = "?hap # zs"
  have new: "new_events s ?s' = option_calls ?opts @ ?rest"
    by (simp add: new_events_def zs)
  have "prefix (trace s @ option_calls ?opts @ ?rest)
          (trace s @ option_calls ?opts @ load_calls d s)"
    using hi by (simp add: zs)
  then have pre: "prefix ?rest (load_calls d s)"
    by simp
  then have sub: "set ?rest \<subseteq> set (load_calls d s)"
    by (rule set_mono_prefix)
  have rest_no_opt: "\<forall>y \<in> set ?rest. \<not> is_option_call y"
    using sub load_calls_none by blast
  have opts_no_con: "\<forall>x \<in> set (option_calls ?opts). \<not> is_construction x"
    using option_calls_only by blast
  have order: "i < j"
    if "i < length (new_events s ?s')" "j < length (new_events s ?s')"
       "is_option_call (new_events s ?s' ! i)" "is_construction (new_events s ?s' ! j)" for i j
    using ordered_append [OF opts_no_con rest_no_opt, of i j] that
    unfolding new by blast
  have first: "take (length (option_calls ?opts)) (new_events s ?s') = option_calls ?opts"
    by (simp add: new)
  have mem: "?hap \<in> set (new_events s ?s')"
    by (simp add: new)
  have uniq: "p = storage_after ?opts s"
    if "HAPStorage_setCustomStoragePath p \<in> set (new_events s ?s')" for p
  proof -
    from that have "HAPStorage_setCustomStoragePath p \<in> set (option_calls ?opts)
        \<or> HAPStorage_setCustomStoragePath p \<in> set (load_calls d s)"
      using sub unfolding new by auto
    then show ?thesis
    proof
      assume "HAPStorage_setCustomStoragePath p \<in> set (option_calls ?opts)"
      from option_calls_only [OF this] show ?thesis by simp
    next
      assume "HAPStorage_setCustomStoragePath p \<in> set (load_calls d s)"
      then show ?thesis by (auto simp add: load_calls_def split: if_splits)
    qed
  qed
  show ?thesis
    using order first mem uniq loadPlugin_settings [of E d s] by blast
qed

theorem options_applied_before_construction_witness:
  "new_events (start_self True True)
     (snd (loadPlugin quiet (Some (example_load PLATFORM None)) (start_self True True))) ! 2
     = User_setStoragePath ''/var/lib/homebridge''
   \<and> new_events (start_self True True)
     (snd (loadPlugin quiet (Some (example_load PLATFORM None)) (start_self True True))) ! 3
     = HAPStorage_setCustomStoragePath (Some ''/var/lib/homebridge'')
   \<and> (2::nat) < 3
   \<and> storage_after (data_bridgeOptions (example_load PLATFORM None)) (start_self True True)
       = Some ''/var/lib/homebridge''
   \<and> storagePath (snd (loadPlugin quiet (Some (example_load PLATFORM None)) (start_self True True)))
       = Some ''/var/lib/homebridge''
   \<and> \<not> timestampEnabled (snd (loadPlugin quiet (Some (example_load PLATFORM None)) (start_self True True)))"
proof -
  let ?new = "new_events (start_self True True)
     (snd (loadPlugin quiet (Some (example_load PLATFORM None)) (start_self True True)))"
  have ev: "?new = [Logger_setTimestampEnabled False, Logger_forceColor,
      User_setStoragePath ''/var/lib/homebridge'',
      HAPStorage_setCustomStoragePath (Some ''/var/lib/homebridge''), New_HomebridgeAPI,
      New_PluginManager, PluginManager_loadPlugin ''/plugins/dummy'', Plugin_load,
      PluginManager_initializePlugin ''Dummy'', Plugin_getPluginIdentifier,
      Process_send (Envelope LOADED None)]"
    by code_simp
  note t = options_applied_before_construction
    [of "start_self True True" quiet "example_load PLATFORM None"]
  have "HAPStorage_setCustomStoragePath (Some ''/var/lib/homebridge'') \<in> set ?new"
    by (simp add: ev)
  with t have st: "storage_after (data_bridgeOptions (example_load PLATFORM None))
                     (start_self True True) = Some ''/var/lib/homebridge''"
    by metis
  have fl: "noLogTimestamps (data_bridgeOptions (example_load PLATFORM None))"
    by code_simp
  from t have order: "\<And>i j. i < length ?new \<Longrightarrow> j < length ?new \<Longrightarrow> is_option_call (?new ! i)
        \<Longrightarrow> is_construction (?new ! j) \<Longrightarrow> i < j"
    by blast
  have "(2::nat) < 3"
    by (rule order) (simp_all add: ev)
  moreover from t have "storagePath (snd (loadPlugin quiet (Some (example_load PLATFORM None)) (start_self True True)))
       = Some ''/var/lib/homebridge''"
    unfolding st by blast
  moreover from t fl have "\<not> timestampEnabled (snd (loadPlugin quiet (Some (example_load PLATFORM None)) (start_self True True)))"
    by simp
  ultimately show ?thesis
    using st by (simp add: ev)
qed


section \<open>Teardown\<close>

text \<open>Everything but the signal handler leaves the flag and the number of teardown calls
  alone.\<close>

lemma gs_steps:
  assumes "\<And>f s. f \<in> set fs \<Longrightarrow> guard_state (snd (f s)) = guard_state s"
  shows "guard_state (snd (steps fs s)) = guard_state s"
  using assms
proof (induction fs arbitrary: s)
  case Nil
  then show ?case by simp
next
  case (Cons f fs)
  have f: "guard_state (snd (f s)) = guard_state s"
    by (rule Cons.prems) simp
  have rest: "guard_state (snd (steps fs s')) = guard_state s'" for s'
    by (rule Cons.IH) (simp add: Cons.prems)
  show ?case
  proof (cases "f s")
    case (Pair c s')
    then show ?thesis
      using f rest [of s'] by (cases c) simp_all
  qed
qed

lemma gs_emit: "e \<noteq> BridgeService_teardown \<Longrightarrow> guard_state (emit e s) = guard_state s"
  by (simp add: guard_state_def teardowns_def emit_def)

lemma gs_prim [simp]:
  "e \<noteq> BridgeService_teardown \<Longrightarrow> guard_state (snd (prim e s)) = guard_state s"
  by (simp add: prim_def gs_emit)

lemma gs_ext [simp]:
  "e \<noteq> BridgeService_teardown \<Longrightarrow> guard_state (snd (ext E e s)) = guard_state s"
  by (simp add: ext_def gs_emit)

lemma gs_calls [simp]:
  "e \<noteq> BridgeService_teardown \<Longrightarrow> guard_state (snd (bridgeService_call E e s)) = guard_state s"
  "e \<noteq> BridgeService_teardown \<Longrightarrow> guard_state (snd (pluginManager_call E e s)) = guard_state s"
  "e \<noteq> BridgeService_teardown \<Longrightarrow> guard_state (snd (api_call E e s)) = guard_state s"
  by (simp_all add: bridgeService_call_def pluginManager_call_def api_call_def split: option.split)

lemma gs_this_update [simp]: "guard_state (this_update f s) = guard_state s"
  by (simp add: guard_state_def teardowns_def this_update_def)

lemma gs_assign_this [simp]: "guard_state (snd (assign (this_update f) s)) = guard_state s"
  by (simp add: assign_def)

lemma gs_throw [simp]: "guard_state (snd (throw e s)) = guard_state s"
  by (simp add: throw_def)

lemma gs_sendMessage [simp]: "guard_state (snd (sendMessage k d s)) = guard_state s"
  by (simp add: sendMessage_def)

lemma gs_function_body [simp]:
  "guard_state (snd (function_body f s)) = guard_state (snd (f s))"
  by (simp add: function_body_def split: prod.split completion.split)

lemma gs_async_call [simp]:
  "guard_state (snd (async_call f s)) = guard_state (snd (f s))"
  by (simp add: async_call_def guard_state_def teardowns_def split: prod.split completion.split)

lemma gs_setBridgeSettings [simp]:
  "guard_state (snd (setBridgeSettings opts s)) = guard_state s"
  by (simp add: setBridgeSettings_eq apply_options_def guard_state_def teardowns_def
        option_calls_def split: option.split)

lemma gs_changeTitle [simp]: "guard_state (snd (changeTitle E s)) = guard_state s"
proof -
  have "guard_state (snd (ext E Plugin_getPluginIdentifier s)) = guard_state s"
    by simp
  then show ?thesis
    by (cases "ext E Plugin_getPluginIdentifier s")
       (auto simp add: changeTitle_def guard_state_def teardowns_def split: completion.split)
qed

lemma gs_loadPlugin [simp]: "guard_state (snd (loadPlugin E d s)) = guard_state s"
proof (cases d)
  case None
  then show ?thesis by (simp add: loadPlugin_def)
next
  case (Some x)
  show ?thesis
    unfolding loadPlugin_def Some option.case
    by (rule gs_steps) (auto simp del: steps.simps split: option.split)
qed

lemma gs_platformCapability [simp]:
  "guard_state (snd (platformCapability E s)) = guard_state s"
  by (simp add: platformCapability_def)

lemma gs_platformBranch [simp]: "guard_state (snd (platformBranch E s)) = guard_state s"
  unfolding platformBranch_def
  by (rule gs_steps) (auto simp del: steps.simps split: option.split intro!: gs_steps)

lemma gs_missingName [simp]: "guard_state (snd (missingName s)) = guard_state s"
  unfolding missingName_def
  by (rule gs_steps) (auto simp del: steps.simps)

lemma gs_namedAccessory [simp]: "guard_state (snd (namedAccessory E c n s)) = guard_state s"
  unfolding namedAccessory_def
  by (rule gs_steps) (auto simp del: steps.simps split: option.split)

lemma gs_accessoryBranch [simp]: "guard_state (snd (accessoryBranch E s)) = guard_state s"
  unfolding accessoryBranch_def
  by (rule gs_steps) (auto simp del: steps.simps split: option.split)

lemma gs_startBridge [simp]: "guard_state (snd (startBridge E s)) = guard_state s"
  unfolding startBridge_def gs_function_body
  by (rule gs_steps) (auto simp del: steps.simps)

lemma gs_on_message [simp]: "guard_state (snd (on_message E m s)) = guard_state s"
  unfolding on_message_def gs_function_body
  by (cases m) simp_all

lemma gs_liveness_check [simp]: "guard_state (snd (liveness_check s)) = guard_state s"
  by (simp add: liveness_check_def prim_def process_exit_def emit_def guard_state_def teardowns_def)

lemma gs_uncaught [simp]: "guard_state (s\<lparr>uncaught := u\<rparr>) = guard_state s"
  by (simp add: guard_state_def teardowns_def)

lemma gs_deliver_other:
  assumes "\<And>g. i \<noteq> Signal g" and "i \<noteq> Timeout_elapsed"
  shows "guard_state (deliver E i s) = guard_state s"
proof (cases i)
  case (Message m)
  have "guard_state (snd (on_message E m s)) = guard_state s" by simp
  then show ?thesis
    by (cases "on_message E m s") (auto simp add: deliver_def Message split: completion.split)
next
  case (Signal g)
  then show ?thesis using assms by simp
next
  case Interval_tick
  have "guard_state (snd (liveness_check s)) = guard_state s" by simp
  then show ?thesis
    by (cases "liveness_check s") (auto simp add: deliver_def Interval_tick split: completion.split)
next
  case Timeout_elapsed
  then show ?thesis using assms by simp
qed

lemma budget_guard: "guard_state s' = guard_state s \<Longrightarrow> budget s' = budget s"
  by (simp add: guard_state_def budget_def)

lemma budget_signal: "budget (deliver E (Signal g) s) \<le> budget s"
proof (cases "shuttingDown s \<or> \<not> alive s")
  case True
  then have "deliver E (Signal g) s = s"
  proof
    assume "shuttingDown s"
    then show ?thesis by (rule deliver_signal_busy)
  next
    assume "\<not> alive s"
    then show ?thesis by (simp add: deliver_def)
  qed
  then show ?thesis by simp
next
  case False
  then have d: "deliver E (Signal g) s = snd (signalHandler E (signal_name g) (signal_number g) s)"
    by (simp add: deliver_signal_first)
  show ?thesis
    using False
    by (simp add: d signalHandler_first try_shutdown_eq budget_def teardowns_def emit_def
          split: option.split)
qed

lemma deliver_timeout:
  "shuttingDown (deliver E Timeout_elapsed s) = shuttingDown s"
  "teardowns (deliver E Timeout_elapsed s) = teardowns s"
  "timers (deliver E Timeout_elapsed s) = (if alive s then tl (timers s) else timers s)"
  by (simp_all add: deliver_def timeout_fires_def process_exit_def emit_def teardowns_def
        split: list.split)

lemma budget_deliver: "budget (deliver E i s) \<le> budget s"
proof (cases i)
  case (Signal g)
  then show ?thesis using budget_signal by simp
next
  case Timeout_elapsed
  then show ?thesis by (simp add: budget_def deliver_timeout)
next
  case (Message m)
  then have "\<And>g. i \<noteq> Signal g" and "i \<noteq> Timeout_elapsed"
    by simp_all
  then have "guard_state (deliver E i s) = guard_state s"
    by (rule gs_deliver_other)
  then have "budget (deliver E i s) = budget s"
    by (rule budget_guard)
  then show ?thesis by simp
next
  case Interval_tick
  then have "\<And>g. i \<noteq> Signal g" and "i \<noteq> Timeout_elapsed"
    by simp_all
  then have "guard_state (deliver E i s) = guard_state s"
    by (rule gs_deliver_other)
  then have "budget (deliver E i s) = budget s"
    by (rule budget_guard)
  then show ?thesis by simp
qed

text \<open>In every state the script reaches, a timeout is pending only if the flag is set.\<close>

lemma quiescent_deliver:
  assumes q: "quiescent s"
  shows "quiescent (deliver E i s)"
proof (cases i)
  case (Signal g)
  show ?thesis
  proof (cases "shuttingDown s \<or> \<not> alive s")
    case True
    then have "deliver E (Signal g) s = s"
    proof
      assume "shuttingDown s"
      then show ?thesis by (rule deliver_signal_busy)
    next
      assume "\<not> alive s"
      then show ?thesis by (simp add: deliver_def)
    qed
    then show ?thesis using Signal q by simp
  next
    case False
    then show ?thesis
      by (simp add: Signal deliver_signal_first signalHandler_first_facts quiescent_def)
  qed
next
  case Timeout_elapsed
  then show ?thesis
    using q by (auto simp add: quiescent_def deliver_timeout)
next
  case (Message m)
  have "\<And>g. i \<noteq> Signal g" and "i \<noteq> Timeout_elapsed"
    using Message by simp_all
  then have "guard_state (deliver E i s) = guard_state s"
    by (rule gs_deliver_other)
  then show ?thesis
    using q by (simp add: guard_state_def quiescent_def)
next
  case Interval_tick
  have "\<And>g. i \<noteq> Signal g" and "i \<noteq> Timeout_elapsed"
    using Interval_tick by simp_all
  then have "guard_state (deliver E i s) = guard_state s"
    by (rule gs_deliver_other)
  then show ?thesis
    using q by (simp add: guard_state_def quiescent_def)
qed

lemma quiescent_run: "quiescent s \<Longrightarrow> quiescent (run E is s)"
  by (induction "is" arbitrary: s) (simp_all add: quiescent_deliver)

lemma no_timeout_before_first_signal:
  "\<not> shuttingDown (run E is (start_self a b)) \<Longrightarrow> timers (run E is (start_self a b)) = []"
  using quiescent_run [of "start_self a b" E "is"]
  by (simp add: quiescent_def start_self_facts)

lemma budget_run: "budget (run E is s) \<le> budget s"
proof (induction "is" arbitrary: s)
  case Nil
  then show ?case by simp
next
  case (Cons i "is")
  have "budget (run E is (deliver E i s)) \<le> budget (deliver E i s)"
    by (rule Cons.IH)
  also have "\<dots> \<le> budget s"
    by (rule budget_deliver)
  finally show ?case by simp
qed

text \<open>
  Claim C2, as stated, fails: \<^verbatim>\<open>shutdown\<close> has no guard of its own. Called twice on a
  running bridge, it calls the teardown twice.
\<close>

theorem shutdown_twice_tears_down_twice:
  "count_list (trace (snd (steps [shutdown quiet, shutdown quiet] running))) BridgeService_teardown = 2
   \<and> \<not> count_list (trace (snd (steps [shutdown quiet, shutdown quiet] running))) BridgeService_teardown \<le> 1"
  by code_simp

text \<open>
  Claim C2, amended. In every execution of the script, that is for every sequence of
  messages, signals, ticks and timeouts, from any state of the process, the teardown is
  called at most once more while the flag of the signal handler is unset and never again
  once it is set; from the start of the script, at most once. A signal that finds the
  flag set changes nothing.
\<close>

theorem teardown_at_most_once_per_run:
  "count_list (trace (run E is s)) BridgeService_teardown
     \<le> count_list (trace s) BridgeService_teardown + (if shuttingDown s then 0 else 1)
   \<and> count_list (trace (run E is (start_self a b))) BridgeService_teardown \<le> 1
   \<and> (shuttingDown s \<longrightarrow> deliver E (Signal g) s = s)"
proof -
  have 1: "count_list (trace (run E is s)) BridgeService_teardown
     \<le> count_list (trace s) BridgeService_teardown + (if shuttingDown s then 0 else 1)" for s
    using budget_run [of E "is" s] by (simp add: budget_def teardowns_def split: if_splits)
  have 2: "count_list (trace (run E is (start_self a b))) BridgeService_teardown \<le> 1"
    using 1 [of "start_self a b"] by (simp add: start_self_facts)
  show ?thesis
    using 1 2 by (simp add: deliver_signal_busy)
qed

theorem teardown_at_most_once_per_run_witness:
  "count_list (trace (run quiet
      [Message (Object (JKind LOAD) (Some (example_load PLATFORM None))),
       Message (Object (JKind START) None), Signal SIGTERM, Signal SIGINT, Signal SIGTERM]
      (start_self True True))) BridgeService_teardown = 1
   \<and> shuttingDown (deliver quiet (Signal SIGINT) running)
   \<and> deliver quiet (Signal SIGTERM) (deliver quiet (Signal SIGINT) running)
       = deliver quiet (Signal SIGINT) running"
proof -
  let ?inputs = "[Message (Object (JKind LOAD) (Some (example_load PLATFORM None))),
       Message (Object (JKind START) None), Signal SIGTERM, Signal SIGINT, Signal SIGTERM]"
  have "1 \<le> count_list (trace (run quiet ?inputs (start_self True True)))
               BridgeService_teardown"
    by code_simp
  then have once: "count_list (trace (run quiet ?inputs (start_self True True)))
               BridgeService_teardown = 1"
    using teardown_at_most_once_per_run
      [of quiet ?inputs "start_self True True" True True SIGTERM]
    by (simp del: run.simps)
  have flag: "shuttingDown (deliver quiet (Signal SIGINT) running)"
    using running_facts by (simp add: deliver_signal_first signalHandler_first_facts)
  have noop: "deliver quiet (Signal SIGTERM) (deliver quiet (Signal SIGINT) running)
       = deliver quiet (Signal SIGINT) running"
    using teardown_at_most_once_per_run
      [of quiet "[]" "deliver quiet (Signal SIGINT) running" True True SIGTERM] flag
    by blast
  show ?thesis
    using once flag noop by blast
qed

section \<open>Starting the bridge\<close>

text \<open>
  Claim C1 says that every \<^verbatim>\<open>startBridge\<close> that completes without a fatal error goes on
  to restore the cached accessories, publish the bridge and signal that the launch has
  finished, also when the accessory branch gives up for want of a name. The code does
  not: at the missing name it warns and returns from the whole function (line 137).
  After LOAD of an accessory without a name, \<^verbatim>\<open>startBridge\<close> completes normally, its promise
  is not rejected, and the three calls are never made; the same with the empty string
  for a name.
\<close>

theorem start_without_name_returns_before_publish:
  "type (childPluginFork nameless) = Some ACCESSORY
   \<and> fst (startBridge quiet nameless) = Normal
   \<and> new_events nameless (snd (startBridge quiet nameless))
       = [New_BridgeService, BridgeService_loadCachedPlatformAccessoriesFromDisk,
          PluginManager_getPluginForAccessory (Some ''Dummy''),
          Logger_internal_warn (Some ''Dummy'')]
   \<and> BridgeService_restoreCachedPlatformAccessories \<notin> set (trace (snd (startBridge quiet nameless)))
   \<and> BridgeService_publishBridge \<notin> set (trace (snd (startBridge quiet nameless)))
   \<and> Api_signalFinished \<notin> set (trace (snd (startBridge quiet nameless)))
   \<and> rejected (deliver quiet (Message (Object (JKind START) None)) nameless) = []
   \<and> alive (deliver quiet (Message (Object (JKind START) None)) nameless)
   \<and> fst (startBridge quiet (run quiet
         [Message (Object (JKind LOAD) (Some (example_load ACCESSORY (Some []))))]
         (start_self True True))) = Normal
   \<and> BridgeService_publishBridge \<notin> set (trace (snd (startBridge quiet (run quiet
         [Message (Object (JKind LOAD) (Some (example_load ACCESSORY (Some []))))]
         (start_self True True)))))"
  by code_simp

lemma steps_append:
  "steps (xs @ ys) s = (case steps xs s of (Normal, s') \<Rightarrow> steps ys s' | r \<Rightarrow> r)"
proof (induction xs arbitrary: s)
  case Nil
  then show ?case by simp
next
  case (Cons f xs)
  show ?case
  proof (cases "f s")
    case (Pair c s')
    then show ?thesis
      using Cons.IH [of s'] by (cases c) simp_all
  qed
qed

lemma steps_no_return:
  assumes "\<And>f s. f \<in> set fs \<Longrightarrow> fst (f s) \<noteq> Return"
  shows "fst (steps fs s) \<noteq> Return"
  using assms
proof (induction fs arbitrary: s)
  case Nil
  then show ?case by simp
next
  case (Cons f fs)
  have f: "fst (f s) \<noteq> Return"
    by (rule Cons.prems) simp
  have rest: "fst (steps fs s') \<noteq> Return" for s'
    by (rule Cons.IH) (simp add: Cons.prems)
  show ?case
  proof (cases "f s")
    case (Pair c s')
    then show ?thesis
      using f rest [of s'] by (cases c) simp_all
  qed
qed

lemma no_return_calls [simp]:
  "fst (prim e s) \<noteq> Return" "fst (ext E e s) \<noteq> Return"
  "fst (bridgeService_call E e s) \<noteq> Return" "fst (pluginManager_call E e s) \<noteq> Return"
  "fst (api_call E e s) \<noteq> Return" "fst (assign f s) \<noteq> Return" "fst (throw x s) \<noteq> Return"
  by (simp_all add: prim_def ext_def bridgeService_call_def pluginManager_call_def api_call_def
        assign_def throw_def split: option.split)

lemma platformCapability_no_return [simp]: "fst (platformCapability E s) \<noteq> Return"
  by (simp add: platformCapability_def)

lemma ext_prim_no_return: "fst (steps [ext E e, prim e'] s) \<noteq> Return"
  by (rule steps_no_return) auto

lemma platformBranch_no_return: "fst (platformBranch E s) \<noteq> Return"
  unfolding platformBranch_def
  by (rule steps_no_return)
     (auto simp del: steps.simps simp add: ext_prim_no_return split: option.splits if_splits)

lemma namedAccessory_no_return: "fst (namedAccessory E c n s) \<noteq> Return"
  unfolding namedAccessory_def
  by (rule steps_no_return) (auto simp del: steps.simps split: option.splits)

lemma fork_calls [simp]:
  "childPluginFork (snd (ext E e s)) = childPluginFork s"
  "childPluginFork (snd (prim e s)) = childPluginFork s"
  "childPluginFork (snd (bridgeService_call E e s)) = childPluginFork s"
  "childPluginFork (snd (pluginManager_call E e s)) = childPluginFork s"
  by (simp_all add: ext_def prim_def emit_def bridgeService_call_def pluginManager_call_def
        split: option.split)

lemma accessoryBranch_return:
  assumes "fst (accessoryBranch E s) = Return"
  shows "\<exists>c. pluginConfig (childPluginFork s) = Some c \<and> \<not> truthy_string (name c)"
proof -
  let ?call = "pluginManager_call E
                 (PluginManager_getPluginForAccessory (identifier (childPluginFork s))) s"
  obtain c1 s1 where r1: "?call = (c1, s1)" by (cases ?call)
  have fork: "childPluginFork s1 = childPluginFork s"
    using fork_calls(4) [of E "PluginManager_getPluginForAccessory (identifier (childPluginFork s))" s]
    by (simp add: r1)
  have c1: "c1 \<noteq> Return"
    using no_return_calls(4) [of E "PluginManager_getPluginForAccessory (identifier (childPluginFork s))" s]
    by (simp add: r1)
  show ?thesis
  proof (cases "pluginConfig (childPluginFork s)")
    case None
    then show ?thesis
      using assms c1 fork by (cases c1) (simp_all add: accessoryBranch_def r1 throw_def)
  next
    case (Some c)
    show ?thesis
    proof (cases "truthy_string (name c)")
      case False
      then show ?thesis using Some by simp
    next
      case True
      then obtain n where n: "name c = Some n" "n \<noteq> []"
        by (auto simp add: truthy_string_def split: option.splits)
      have "fst (namedAccessory E c n s1) \<noteq> Return"
        by (rule namedAccessory_no_return)
      then have "fst (accessoryBranch E s) \<noteq> Return"
        using c1 fork Some n
        by (cases c1; cases "namedAccessory E c n s1")
           (simp_all add: accessoryBranch_def r1 split: completion.split)
      then show ?thesis using assms by simp
    qed
  qed
qed


lemma fork_fields_bridgeService [simp]:
  "type (childPluginFork (this_update (\<lambda>t. t\<lparr>bridgeService := b\<rparr>) s)) = type (childPluginFork s)"
  "pluginConfig (childPluginFork (this_update (\<lambda>t. t\<lparr>bridgeService := b\<rparr>) s))
     = pluginConfig (childPluginFork s)"
  by (simp_all add: this_update_def)

lemma branch_return:
  assumes "fst ((\<lambda>s. if type (childPluginFork s) = Some PLATFORM then platformBranch E s
           else if type (childPluginFork s) = Some ACCESSORY then accessoryBranch E s
           else (Normal, s)) s) = Return"
  shows "type (childPluginFork s) = Some ACCESSORY
       \<and> (\<exists>c. pluginConfig (childPluginFork s) = Some c \<and> \<not> truthy_string (name c))"
  using assms platformBranch_no_return [of E s] accessoryBranch_return [of E s]
  by (auto split: if_splits)

lemma start_prefix_return:
  assumes "fst (steps [
     ext E New_BridgeService,
     assign (this_update (\<lambda>t. t\<lparr>bridgeService := Some BridgeService\<rparr>)),
     bridgeService_call E BridgeService_loadCachedPlatformAccessoriesFromDisk,
     (\<lambda>s. if type (childPluginFork s) = Some PLATFORM then platformBranch E s
           else if type (childPluginFork s) = Some ACCESSORY then accessoryBranch E s
           else (Normal, s))] s) = Return"
  shows "type (childPluginFork s) = Some ACCESSORY
       \<and> (\<exists>c. pluginConfig (childPluginFork s) = Some c \<and> \<not> truthy_string (name c))"
proof -
  let ?s1 = "snd (ext E New_BridgeService s)"
  let ?s2 = "this_update (\<lambda>t. t\<lparr>bridgeService := Some BridgeService\<rparr>) ?s1"
  let ?s3 = "snd (bridgeService_call E BridgeService_loadCachedPlatformAccessoriesFromDisk ?s2)"
  let ?branch = "\<lambda>s. if type (childPluginFork s) = Some PLATFORM then platformBranch E s
           else if type (childPluginFork s) = Some ACCESSORY then accessoryBranch E s
           else (Normal, s)"
  have same: "type (childPluginFork ?s3) = type (childPluginFork s)"
       "pluginConfig (childPluginFork ?s3) = pluginConfig (childPluginFork s)"
    by simp_all
  have "fst (?branch ?s3) = Return"
    using assms
    by (simp add: ext_def assign_def bridgeService_call_def this_update_def emit_def
          split: if_splits prod.splits completion.splits)
  from branch_return [OF this] show ?thesis
    unfolding same .
qed

lemma start_suffix_trace:
  assumes "fst (steps [
     bridgeService_call E BridgeService_restoreCachedPlatformAccessories,
     bridgeService_call E BridgeService_publishBridge,
     api_call E Api_signalFinished] s) = Normal"
  shows "trace (snd (steps [
     bridgeService_call E BridgeService_restoreCachedPlatformAccessories,
     bridgeService_call E BridgeService_publishBridge,
     api_call E Api_signalFinished] s))
     = trace s @ [BridgeService_restoreCachedPlatformAccessories, BridgeService_publishBridge,
                  Api_signalFinished]"
  using assms
  by (simp add: bridgeService_call_def api_call_def ext_def emit_def
        split: option.splits if_splits)

lemma start_suffix_no_return:
  "fst (steps [
     bridgeService_call E BridgeService_restoreCachedPlatformAccessories,
     bridgeService_call E BridgeService_publishBridge,
     api_call E Api_signalFinished] s) \<noteq> Return"
  by (rule steps_no_return) auto

text \<open>
  Every other path of \<^verbatim>\<open>startBridge\<close> that completes does make the three calls, in this
  order and as its last: the platform paths, and the accessory paths with a name, among
  them the one whose accessory has no services and is not added.
\<close>

lemma startBridge_publishes_unless_name_missing:
  assumes "fst (startBridge E s) = Normal"
  shows "(\<exists>tr. trace (snd (startBridge E s))
            = tr @ [BridgeService_restoreCachedPlatformAccessories,
                    BridgeService_publishBridge, Api_signalFinished])
       \<or> (type (childPluginFork s) = Some ACCESSORY
           \<and> (\<exists>c. pluginConfig (childPluginFork s) = Some c \<and> \<not> truthy_string (name c)))"
proof -
  let ?pre = "[
     ext E New_BridgeService,
     assign (this_update (\<lambda>t. t\<lparr>bridgeService := Some BridgeService\<rparr>)),
     bridgeService_call E BridgeService_loadCachedPlatformAccessoriesFromDisk,
     (\<lambda>s. if type (childPluginFork s) = Some PLATFORM then platformBranch E s
           else if type (childPluginFork s) = Some ACCESSORY then accessoryBranch E s
           else (Normal, s))]"
  let ?post = "[
     bridgeService_call E BridgeService_restoreCachedPlatformAccessories,
     bridgeService_call E BridgeService_publishBridge,
     api_call E Api_signalFinished]"
  have sb: "startBridge E s = function_body (steps (?pre @ ?post)) s"
    by (simp add: startBridge_def del: steps.simps)
  obtain c1 s1 where pre: "steps ?pre s = (c1, s1)"
    by (cases "steps ?pre s")
  have body: "steps (?pre @ ?post) s = (case c1 of Normal \<Rightarrow> steps ?post s1 | r \<Rightarrow> (r, s1))"
    unfolding steps_append pre by (cases c1) simp_all
  show ?thesis
  proof (cases c1)
    case Normal
    obtain c2 s2 where post: "steps ?post s1 = (c2, s2)"
      by (cases "steps ?post s1")
    have "c2 \<noteq> Return"
      using start_suffix_no_return [of E s1] by (simp add: post del: steps.simps)
    moreover have "fst (function_body (steps (?pre @ ?post)) s) = Normal"
      using assms by (simp only: sb)
    ultimately have "c2 = Normal"
      unfolding function_body_def body Normal
      by (cases c2) (simp_all add: post del: steps.simps)
    then have "trace s2 = trace s1 @ [BridgeService_restoreCachedPlatformAccessories,
        BridgeService_publishBridge, Api_signalFinished]"
      using start_suffix_trace [of E s1] by (simp add: post del: steps.simps)
    moreover have "snd (startBridge E s) = s2"
      unfolding sb function_body_def body Normal
      by (cases c2) (simp_all add: post del: steps.simps)
    ultimately show ?thesis by auto
  next
    case Return
    then have "fst (steps ?pre s) = Return"
      by (simp add: pre del: steps.simps)
    from start_prefix_return [OF this] show ?thesis by simp
  next
    case (Throw e)
    then have "fst (startBridge E s) = Throw e"
      unfolding sb function_body_def body by simp
    then show ?thesis using assms by simp
  next
    case (Exit n)
    then have "fst (startBridge E s) = Exit n"
      unfolding sb function_body_def body by simp
    then show ?thesis using assms by simp
  qed
qed


end
